theory Spec2Isabelle
  imports Complex_Main "HOL-Library.Sublist"
begin

section \<open>Operating hours (lib/operating-hours.js)\<close>

text \<open>
  The functions of this module read the process clock through \<^verbatim>\<open>new Date()\<close>.
  A clock reading is modelled by the four observations the code makes of it:
  \<^verbatim>\<open>getTime()\<close> (milliseconds since the epoch), \<^verbatim>\<open>getDay()\<close> (0 = Sunday .. 6 = Saturday),
  \<^verbatim>\<open>getHours()\<close>, and the date part of \<^verbatim>\<open>toISOString()\<close>, kept as (year, month, day).
  One sweep is modelled with one reading.
\<close>

record clock =
  getTime :: int
  getDay :: nat
  getHours :: nat
  isoDate :: "nat \<times> nat \<times> nat"

definition JEWISH_HOLIDAYS :: "(nat \<times> nat \<times> nat) list" where
  "JEWISH_HOLIDAYS =
    [(2025, 4, 13), (2025, 4, 14),
     (2025, 4, 19), (2025, 4, 20),
     (2025, 6, 2), (2025, 6, 3),
     (2025, 9, 23), (2025, 9, 24),
     (2025, 10, 2),
     (2025, 10, 7), (2025, 10, 8),
     (2025, 10, 14), (2025, 10, 15),
     (2026, 4, 2), (2026, 4, 3),
     (2026, 4, 8), (2026, 4, 9),
     (2026, 5, 22), (2026, 5, 23),
     (2026, 9, 12), (2026, 9, 13),
     (2026, 9, 21),
     (2026, 9, 26), (2026, 9, 27),
     (2026, 10, 3), (2026, 10, 4)]"

definition isJewishHoliday :: "clock \<Rightarrow> bool" where
  "isJewishHoliday now = (isoDate now \<in> set JEWISH_HOLIDAYS)"

definition isWithinOperatingHours :: "clock \<Rightarrow> bool" where
  "isWithinOperatingHours now =
    (let day = getDay now; hour = getHours now in
     if isJewishHoliday now then False
     else if day = 6 then False
     else if day = 5 then (if hour < 9 \<or> hour \<ge> 15 then False else True)
     else if hour < 9 \<or> hour \<ge> 21 then False
     else True)"

definition isWithinTimeWindow :: "clock \<Rightarrow> nat \<Rightarrow> nat \<Rightarrow> bool" where
  "isWithinTimeWindow now startHour endHour =
    (if \<not> isWithinOperatingHours now then False
     else getHours now \<ge> startHour \<and> getHours now < endHour)"

section \<open>Reminder policy (lib/reminder-scheduler.js)\<close>

record rule =
  stage :: nat
  delayMinutes :: nat
  windowStart :: "nat option"
  windowEnd :: "nat option"

datatype funnel = Form | Appointment

text \<open>\<^verbatim>\<open>REMINDER_TIMING\<close>; the first argument is \<^verbatim>\<open>IS_TEST_MODE\<close>.\<close>

definition REMINDER_TIMING :: "bool \<Rightarrow> funnel \<Rightarrow> rule list" where
  "REMINDER_TIMING IS_TEST_MODE type =
    (case type of
       Form \<Rightarrow>
         (if IS_TEST_MODE then
            [\<lparr>stage = 1, delayMinutes = 1, windowStart = None, windowEnd = None\<rparr>,
             \<lparr>stage = 2, delayMinutes = 2, windowStart = None, windowEnd = None\<rparr>,
             \<lparr>stage = 3, delayMinutes = 3, windowStart = None, windowEnd = None\<rparr>]
          else
            [\<lparr>stage = 1, delayMinutes = 60, windowStart = None, windowEnd = None\<rparr>,
             \<lparr>stage = 2, delayMinutes = 1440, windowStart = Some 9, windowEnd = Some 12\<rparr>,
             \<lparr>stage = 3, delayMinutes = 2880, windowStart = Some 18, windowEnd = Some 20\<rparr>])
     | Appointment \<Rightarrow>
         (if IS_TEST_MODE then
            [\<lparr>stage = 1, delayMinutes = 1, windowStart = None, windowEnd = None\<rparr>,
             \<lparr>stage = 2, delayMinutes = 2, windowStart = None, windowEnd = None\<rparr>,
             \<lparr>stage = 3, delayMinutes = 3, windowStart = None, windowEnd = None\<rparr>,
             \<lparr>stage = 4, delayMinutes = 4, windowStart = None, windowEnd = None\<rparr>]
          else
            [\<lparr>stage = 1, delayMinutes = 60, windowStart = None, windowEnd = None\<rparr>,
             \<lparr>stage = 2, delayMinutes = 1440, windowStart = None, windowEnd = None\<rparr>,
             \<lparr>stage = 3, delayMinutes = 2880, windowStart = None, windowEnd = None\<rparr>,
             \<lparr>stage = 4, delayMinutes = 4320, windowStart = None, windowEnd = None\<rparr>]))"

text \<open>
  The window test of one rule: \<^verbatim>\<open>rule.windowStart !== null && rule.windowEnd !== null\<close>
  and \<^verbatim>\<open>!isWithinTimeWindow(rule.windowStart, rule.windowEnd)\<close>.
\<close>

definition outsideWindow :: "clock \<Rightarrow> rule \<Rightarrow> bool" where
  "outsideWindow now r =
    (case (windowStart r, windowEnd r) of
       (Some ws, Some we) \<Rightarrow> \<not> isWithinTimeWindow now ws we
     | _ \<Rightarrow> False)"

text \<open>
  The \<^verbatim>\<open>for (const rule of timingRules)\<close> loop: each \<^verbatim>\<open>continue\<close> is the recursive
  call on the remaining rules, \<^verbatim>\<open>return rule.stage\<close> ends it, and falling out of the loop
  returns null.
\<close>

fun timingLoop :: "clock \<Rightarrow> rat \<Rightarrow> nat list \<Rightarrow> rule list \<Rightarrow> nat option" where
  "timingLoop now minutesSince alreadySent [] = None"
| "timingLoop now minutesSince alreadySent (r # timingRules) =
    (if stage r \<in> set alreadySent then timingLoop now minutesSince alreadySent timingRules
     else if minutesSince < of_nat (delayMinutes r) then
       timingLoop now minutesSince alreadySent timingRules
     else if outsideWindow now r then timingLoop now minutesSince alreadySent timingRules
     else Some (stage r))"

text \<open>\<^verbatim>\<open>const minutesSince = (now - sentAt) / (1000 * 60)\<close>, an exact quotient.\<close>

definition minutesSince :: "clock \<Rightarrow> int \<Rightarrow> rat" where
  "minutesSince now sentAt = of_int (getTime now - sentAt) / (1000 * 60)"

text \<open>
  \<^verbatim>\<open>getNextReminderStage(sentAt, alreadySent, type)\<close>. A null \<^verbatim>\<open>sentAt\<close> is \<open>None\<close>,
  a date is its epoch milliseconds; the result null is \<open>None\<close>.
\<close>

definition getNextReminderStage ::
  "bool \<Rightarrow> clock \<Rightarrow> int option \<Rightarrow> nat list \<Rightarrow> funnel \<Rightarrow> nat option" where
  "getNextReminderStage IS_TEST_MODE now sentAt alreadySent type =
    (case sentAt of
       None \<Rightarrow> None
     | Some t \<Rightarrow>
         (let timingRules = REMINDER_TIMING IS_TEST_MODE type
          in timingLoop now (minutesSince now t) alreadySent timingRules))"

section \<open>Timezone helper (lib/timezoneHelper.js)\<close>

text \<open>
  A Luxon \<^verbatim>\<open>DateTime\<close> in the zone Asia/Jerusalem is modelled by its local calendar
  fields: the local date as a day count (days of the proleptic Gregorian calendar since
  1970-01-01) and the wall-clock hour, minute, second and millisecond.
  \<^verbatim>\<open>plus({ days: n })\<close> moves the date and keeps the wall-clock fields,
  \<^verbatim>\<open>set({ hour, minute, second, millisecond })\<close> overwrites them; \<^verbatim>\<open>setZone\<close> of a
  value already in the zone changes nothing. Daylight-saving gaps are not modelled.
\<close>

record DateTime =
  epochDay :: int
  hour :: nat
  minute :: nat
  second :: nat
  millisecond :: nat

text \<open>The day count of a calendar date (year, month, day).\<close>

definition days_from_civil :: "nat \<times> nat \<times> nat \<Rightarrow> int" where
  "days_from_civil ymd =
    (case ymd of (y0, m, d) \<Rightarrow>
      (let y = (if m \<le> 2 then int y0 - 1 else int y0);
           era = y div 400;
           yoe = y - era * 400;
           mp = (if m > 2 then int m - 3 else int m + 9);
           doy = (153 * mp + 2) div 5 + int d - 1;
           doe = yoe * 365 + yoe div 4 - yoe div 100 + doy
       in era * 146097 + doe - 719468))"

definition fromObject :: "nat \<times> nat \<times> nat \<Rightarrow> nat \<Rightarrow> nat \<Rightarrow> DateTime" where
  "fromObject ymd h mi =
    \<lparr>epochDay = days_from_civil ymd, hour = h, minute = mi, second = 0, millisecond = 0\<rparr>"

text \<open>Luxon's \<^verbatim>\<open>weekday\<close>: 1 = Monday .. 7 = Sunday; 1970-01-01 was a Thursday.\<close>

definition weekday :: "DateTime \<Rightarrow> nat" where
  "weekday dt = nat ((epochDay dt + 3) mod 7) + 1"

definition plusDays :: "DateTime \<Rightarrow> int \<Rightarrow> DateTime" where
  "plusDays dt n = dt\<lparr>epochDay := epochDay dt + n\<rparr>"

text \<open>\<^verbatim>\<open>.set({ hour: h, minute: 0, second: 0, millisecond: 0 })\<close>\<close>

definition setHour :: "DateTime \<Rightarrow> nat \<Rightarrow> DateTime" where
  "setHour dt h = dt\<lparr>hour := h, minute := 0, second := 0, millisecond := 0\<rparr>"

text \<open>The wall-clock position of a value, in milliseconds; it orders the values.\<close>

definition localMillis :: "DateTime \<Rightarrow> int" where
  "localMillis dt =
    ((epochDay dt * 24 + int (hour dt)) * 60 + int (minute dt)) * 60000
      + int (second dt) * 1000 + int (millisecond dt)"

definition validDateTime :: "DateTime \<Rightarrow> bool" where
  "validDateTime dt =
    (hour dt < 24 \<and> minute dt < 60 \<and> second dt < 60 \<and> millisecond dt < 1000)"

record hours =
  hours_start :: nat
  hours_end :: nat

definition BUSINESS_HOURS :: hours where
  "BUSINESS_HOURS = \<lparr>hours_start = 9, hours_end = 20\<rparr>"

abbreviation (input) SUNDAY :: nat where "SUNDAY \<equiv> 7"
abbreviation (input) MONDAY :: nat where "MONDAY \<equiv> 1"
abbreviation (input) TUESDAY :: nat where "TUESDAY \<equiv> 2"
abbreviation (input) WEDNESDAY :: nat where "WEDNESDAY \<equiv> 3"
abbreviation (input) THURSDAY :: nat where "THURSDAY \<equiv> 4"
abbreviation (input) FRIDAY :: nat where "FRIDAY \<equiv> 5"
abbreviation (input) SATURDAY :: nat where "SATURDAY \<equiv> 6"

definition ISRAELI_WEEKDAYS :: "nat list" where
  "ISRAELI_WEEKDAYS = [SUNDAY, MONDAY, TUESDAY, WEDNESDAY, THURSDAY]"

definition isIsraeliWeekend :: "DateTime \<Rightarrow> bool" where
  "isIsraeliWeekend dateTime =
    (let dayOfWeek = weekday dateTime in dayOfWeek = FRIDAY \<or> dayOfWeek = SATURDAY)"

definition isIsraeliWeekday :: "DateTime \<Rightarrow> bool" where
  "isIsraeliWeekday dateTime = (weekday dateTime \<in> set ISRAELI_WEEKDAYS)"

text \<open>\<^verbatim>\<open>customHours || BUSINESS_HOURS\<close>\<close>

definition hoursOr :: "hours option \<Rightarrow> hours" where
  "hoursOr customHours = (case customHours of Some h \<Rightarrow> h | None \<Rightarrow> BUSINESS_HOURS)"

definition isWithinBusinessHours :: "DateTime \<Rightarrow> hours option \<Rightarrow> bool" where
  "isWithinBusinessHours dateTime customHours =
    (let hrs = hoursOr customHours; h = hour dateTime
     in h \<ge> hours_start hrs \<and> h < hours_end hrs)"

definition isValidReminderTime :: "DateTime \<Rightarrow> hours option \<Rightarrow> bool" where
  "isValidReminderTime dateTime customHours =
    (isIsraeliWeekday dateTime \<and> isWithinBusinessHours dateTime customHours)"

function getNextValidBusinessTime :: "DateTime \<Rightarrow> hours option \<Rightarrow> DateTime" where
  "getNextValidBusinessTime fromTime customHours =
    (if isValidReminderTime fromTime customHours then fromTime
     else if isIsraeliWeekend fromTime then
       setHour (plusDays fromTime (if weekday fromTime = FRIDAY then 2 else 1))
         (hours_start (hoursOr customHours))
     else if \<not> isWithinBusinessHours fromTime customHours then
       (if hour fromTime < hours_start (hoursOr customHours) then
          setHour fromTime (hours_start (hoursOr customHours))
        else if hour fromTime \<ge> hours_end (hoursOr customHours) then
          (if isIsraeliWeekend (setHour (plusDays fromTime 1) (hours_start (hoursOr customHours)))
           then getNextValidBusinessTime
                  (setHour (plusDays fromTime 1) (hours_start (hoursOr customHours))) customHours
           else setHour (plusDays fromTime 1) (hours_start (hoursOr customHours)))
        else fromTime)
     else fromTime)"
  by pat_completeness auto
termination
  by (relation "measure (\<lambda>(t, h). if isIsraeliWeekend t then 0 else 1)") auto

declare getNextValidBusinessTime.simps [simp del]

definition calculate19pmReminderTime :: "DateTime \<Rightarrow> DateTime" where
  "calculate19pmReminderTime firstMessageTime =
    (if hour firstMessageTime < 18 then setHour firstMessageTime 19
     else setHour (plusDays firstMessageTime 1) 19)"

definition calculateVideoTestimonialTime :: "DateTime \<Rightarrow> DateTime" where
  "calculateVideoTestimonialTime firstMessageTime =
    (let reminderTime = calculate19pmReminderTime firstMessageTime
     in setHour reminderTime 20)"

definition calculateNextAppointmentReminderTime :: "DateTime \<Rightarrow> DateTime" where
  "calculateNextAppointmentReminderTime lastReminderTime =
    (let nextTime = setHour (plusDays lastReminderTime 1) 19
     in getNextValidBusinessTime nextTime None)"

text \<open>
  \<^verbatim>\<open>scheduleWithDelay(fromTime, delaySeconds)\<close> is \<^verbatim>\<open>fromTime.plus({ seconds })\<close>: the
  wall-clock position moves by the delay and is read back into the fields.
\<close>

definition ofLocalMillis :: "int \<Rightarrow> DateTime" where
  "ofLocalMillis ms =
    (let r = ms mod 86400000 in
     \<lparr>epochDay = ms div 86400000, hour = nat (r div 3600000),
      minute = nat (r mod 3600000 div 60000), second = nat (r mod 60000 div 1000),
      millisecond = nat (r mod 1000)\<rparr>)"

definition scheduleWithDelay :: "DateTime \<Rightarrow> int \<Rightarrow> DateTime" where
  "scheduleWithDelay fromTime delaySeconds = ofLocalMillis (localMillis fromTime + delaySeconds * 1000)"

section \<open>Persisted state (tables created by SessionManager.initialize)\<close>

text \<open>
  The rows of the tables \<^verbatim>\<open>sessions\<close> and \<^verbatim>\<open>scheduled_messages\<close>, with the columns
  the modelled functions read or write. Timestamps of sessions are epoch milliseconds,
  a NULL column is \<open>None\<close>. The rendered message text, the media URL and the
  bookkeeping columns \<^verbatim>\<open>sent_at\<close>, \<^verbatim>\<open>created_at\<close>, \<^verbatim>\<open>updated_at\<close> of
  \<^verbatim>\<open>scheduled_messages\<close> are left out. \<open>next_id\<close> is the SERIAL sequence of
  \<^verbatim>\<open>scheduled_messages.id\<close>.
\<close>

datatype session_status = Active | Completed | Expired

datatype message_status = Pending | Sent | Failed | Cancelled

record session =
  session_id :: string
  phone_number :: string
  chat_id :: "string option"
  created_at :: int
  expires_at :: int
  form_data :: string
  status :: session_status
  completed_at :: "int option"
  form_sent_at :: "int option"
  form_completed_at :: "int option"
  appointment_sent_at :: "int option"
  appointment_scheduled_at :: "int option"
  reminders_sent :: "nat list \<times> nat list"

record scheduled_message =
  msg_id :: nat
  msg_session_id :: string
  msg_phone_number :: string
  msg_chat_id :: "string option"
  message_type :: string
  scheduled_for :: DateTime
  msg_status :: message_status
  error_message :: "string option"
  retry_count :: nat

record db =
  sessions :: "session list"
  scheduled_messages :: "scheduled_message list"
  next_id :: nat

definition emptyDb :: db where
  "emptyDb = \<lparr>sessions = [], scheduled_messages = [], next_id = 1\<rparr>"

text \<open>\<^verbatim>\<open>UPDATE scheduled_messages SET status = st WHERE id = i\<close>\<close>

definition setMessageStatus :: "db \<Rightarrow> nat \<Rightarrow> message_status \<Rightarrow> db" where
  "setMessageStatus d i st =
    d\<lparr>scheduled_messages :=
        map (\<lambda>m. if msg_id m = i then m\<lparr>msg_status := st\<rparr> else m) (scheduled_messages d)\<rparr>"

text \<open>SQL \<^verbatim>\<open>LIKE\<close>: \<open>%\<close> matches any run of characters, \<open>_\<close> any one character.\<close>

fun sql_like :: "string \<Rightarrow> string \<Rightarrow> bool" where
  "sql_like s [] = (s = [])"
| "sql_like s (p # ps) =
    (if p = CHR ''%'' then
       (sql_like s ps \<or> (case s of [] \<Rightarrow> False | c # cs \<Rightarrow> sql_like cs (p # ps)))
     else (case s of [] \<Rightarrow> False | c # cs \<Rightarrow> (p = CHR ''_'' \<or> p = c) \<and> sql_like cs ps))"

declare sql_like.simps [simp del]

section \<open>Message scheduler (lib/messageScheduler.js)\<close>

abbreviation (input) FORM_REMINDER_19PM :: string where "FORM_REMINDER_19PM \<equiv> ''form_reminder_19pm''"
abbreviation (input) VIDEO_TESTIMONIAL :: string where "VIDEO_TESTIMONIAL \<equiv> ''video_testimonial''"
abbreviation (input) APPOINTMENT_REMINDER_1 :: string where
  "APPOINTMENT_REMINDER_1 \<equiv> ''appointment_reminder_1''"
abbreviation (input) APPOINTMENT_REMINDER_2 :: string where
  "APPOINTMENT_REMINDER_2 \<equiv> ''appointment_reminder_2''"
abbreviation (input) APPOINTMENT_REMINDER_3 :: string where
  "APPOINTMENT_REMINDER_3 \<equiv> ''appointment_reminder_3''"
abbreviation (input) APPOINTMENT_REMINDER_4 :: string where
  "APPOINTMENT_REMINDER_4 \<equiv> ''appointment_reminder_4''"

text \<open>
  \<^verbatim>\<open>scheduleMessage\<close>: the row is inserted with status pending and the next serial id.
  The column \<^verbatim>\<open>session_id\<close> references \<^verbatim>\<open>sessions(session_id)\<close>, so the insert throws
  when no such session exists; the function rethrows. For the message types scheduled
  below, \<^verbatim>\<open>validateVariables\<close> and \<^verbatim>\<open>getMessage\<close> do not throw. The queue's
  \<^verbatim>\<open>add\<close> is taken to succeed; the queue itself is not part of the state, the worker
  below can be run on any job at any moment.
\<close>

definition scheduleMessage ::
  "db \<Rightarrow> string \<Rightarrow> string \<Rightarrow> string option \<Rightarrow> string \<Rightarrow> DateTime
    \<Rightarrow> string + (scheduled_message \<times> db)" where
  "scheduleMessage d sessionId phoneNumber chatId messageType scheduledFor =
    (let effectiveChatId =
           (case chatId of
              Some c \<Rightarrow> Some c
            | None \<Rightarrow>
                (case find (\<lambda>s. session_id s = sessionId) (sessions d) of
                   Some s \<Rightarrow> chat_id s
                 | None \<Rightarrow> None))
     in if sessionId \<notin> session_id ` set (sessions d) then
          Inl ''insert or update on table scheduled_messages violates foreign key constraint''
        else
          (let scheduledMessageRecord =
                 \<lparr>msg_id = next_id d, msg_session_id = sessionId,
                  msg_phone_number = phoneNumber, msg_chat_id = effectiveChatId,
                  message_type = messageType, scheduled_for = scheduledFor,
                  msg_status = Pending, error_message = None, retry_count = 0\<rparr>
           in Inr (scheduledMessageRecord,
                   d\<lparr>scheduled_messages := scheduled_messages d @ [scheduledMessageRecord],
                     next_id := next_id d + 1\<rparr>)))"

text \<open>\<^verbatim>\<open>scheduleChatbotLink\<close>; \<open>now\<close> is \<^verbatim>\<open>getNowInIsrael()\<close>.\<close>

definition scheduleChatbotLink ::
  "db \<Rightarrow> string \<Rightarrow> string \<Rightarrow> DateTime \<Rightarrow> string + (scheduled_message \<times> db)" where
  "scheduleChatbotLink d sessionId phoneNumber now =
    (let scheduledFor = scheduleWithDelay now 0
     in scheduleMessage d sessionId phoneNumber None ''chatbot_link'' scheduledFor)"

definition schedule19pmReminder ::
  "db \<Rightarrow> string \<Rightarrow> string \<Rightarrow> DateTime \<Rightarrow> string + (scheduled_message \<times> db)" where
  "schedule19pmReminder d sessionId phoneNumber firstMessageTime =
    (let scheduledFor = calculate19pmReminderTime firstMessageTime;
         validScheduledFor = getNextValidBusinessTime scheduledFor None
     in scheduleMessage d sessionId phoneNumber None FORM_REMINDER_19PM validScheduledFor)"

definition scheduleVideoTestimonial ::
  "db \<Rightarrow> string \<Rightarrow> string \<Rightarrow> DateTime \<Rightarrow> string + (scheduled_message \<times> db)" where
  "scheduleVideoTestimonial d sessionId phoneNumber firstMessageTime =
    (let scheduledFor = calculateVideoTestimonialTime firstMessageTime;
         validScheduledFor = getNextValidBusinessTime scheduledFor None
     in scheduleMessage d sessionId phoneNumber None VIDEO_TESTIMONIAL validScheduledFor)"

definition scheduleAppointmentReminders ::
  "db \<Rightarrow> string \<Rightarrow> string \<Rightarrow> DateTime \<Rightarrow> string + (scheduled_message list \<times> db)" where
  "scheduleAppointmentReminders d sessionId phoneNumber appointmentLinkSentTime =
    (let reminder1Time = calculateNextAppointmentReminderTime appointmentLinkSentTime in
     case scheduleMessage d sessionId phoneNumber None APPOINTMENT_REMINDER_1 reminder1Time of
       Inl e \<Rightarrow> Inl e
     | Inr (reminder1, d1) \<Rightarrow>
    (let reminder2Time = calculateNextAppointmentReminderTime reminder1Time in
     case scheduleMessage d1 sessionId phoneNumber None APPOINTMENT_REMINDER_2 reminder2Time of
       Inl e \<Rightarrow> Inl e
     | Inr (reminder2, d2) \<Rightarrow>
    (let reminder3Time = calculateNextAppointmentReminderTime reminder2Time in
     case scheduleMessage d2 sessionId phoneNumber None APPOINTMENT_REMINDER_3 reminder3Time of
       Inl e \<Rightarrow> Inl e
     | Inr (reminder3, d3) \<Rightarrow>
    (let reminder4Time = calculateNextAppointmentReminderTime reminder3Time in
     case scheduleMessage d3 sessionId phoneNumber None APPOINTMENT_REMINDER_4 reminder4Time of
       Inl e \<Rightarrow> Inl e
     | Inr (reminder4, d4) \<Rightarrow>
         Inr ([reminder1, reminder2, reminder3, reminder4], d4)))))"

text \<open>
  \<^verbatim>\<open>cancelScheduledMessage\<close>. \<open>queueOk i\<close> says that the queue calls made for row \<open>i\<close>
  (\<^verbatim>\<open>messageQueue.getJob\<close>, \<^verbatim>\<open>job.remove\<close>) do not throw; when one throws, the
  \<^verbatim>\<open>catch\<close> returns false before the row is updated.
\<close>

definition cancelScheduledMessage :: "(nat \<Rightarrow> bool) \<Rightarrow> db \<Rightarrow> nat \<Rightarrow> bool \<times> db" where
  "cancelScheduledMessage queueOk d scheduledMessageId =
    (case find (\<lambda>m. msg_id m = scheduledMessageId) (scheduled_messages d) of
       None \<Rightarrow> (False, d)
     | Some m \<Rightarrow>
         if msg_status m \<noteq> Pending then (False, d)
         else if \<not> queueOk scheduledMessageId then (False, d)
         else (True, setMessageStatus d scheduledMessageId Cancelled))"

text \<open>The \<^verbatim>\<open>for (const row of result.rows)\<close> loop of \<^verbatim>\<open>cancelSessionMessages\<close>.\<close>

fun cancelRows :: "(nat \<Rightarrow> bool) \<Rightarrow> db \<Rightarrow> nat list \<Rightarrow> nat \<Rightarrow> nat \<times> db" where
  "cancelRows queueOk d [] cancelledCount = (cancelledCount, d)"
| "cancelRows queueOk d (i # rows) cancelledCount =
    (case cancelScheduledMessage queueOk d i of
       (cancelled, d') \<Rightarrow>
         cancelRows queueOk d' rows (if cancelled then cancelledCount + 1 else cancelledCount))"

definition cancelSessionMessages :: "(nat \<Rightarrow> bool) \<Rightarrow> db \<Rightarrow> string \<Rightarrow> string \<Rightarrow> nat \<times> db" where
  "cancelSessionMessages queueOk d sessionId messageTypePattern =
    (let rows = filter (\<lambda>m. msg_session_id m = sessionId \<and> msg_status m = Pending \<and>
                            sql_like (message_type m) messageTypePattern)
                  (scheduled_messages d)
     in cancelRows queueOk d (map msg_id rows) 0)"

text \<open>
  \<^verbatim>\<open>processScheduledMessage(job)\<close>, run by the queue worker on \<^verbatim>\<open>job.data\<close>.
  \<open>sendOk\<close> says that \<^verbatim>\<open>sendWhatsAppMessage\<close> returns rather than throws. The result is
  the job's outcome, whether \<^verbatim>\<open>sendWhatsAppMessage\<close> was called, and the new state.
\<close>

record job_data =
  job_scheduledMessageId :: nat
  job_sessionId :: string
  job_messageType :: string

datatype job_result = Skipped string | Delivered | Thrown string

definition markFailed :: "db \<Rightarrow> nat \<Rightarrow> string \<Rightarrow> db" where
  "markFailed d i err =
    d\<lparr>scheduled_messages :=
        map (\<lambda>m. if msg_id m = i
                  then m\<lparr>msg_status := Failed, error_message := Some err,
                         retry_count := retry_count m + 1\<rparr>
                  else m) (scheduled_messages d)\<rparr>"

definition processScheduledMessage :: "bool \<Rightarrow> db \<Rightarrow> job_data \<Rightarrow> job_result \<times> bool \<times> db" where
  "processScheduledMessage sendOk d job =
    (case find (\<lambda>m. msg_id m = job_scheduledMessageId job) (scheduled_messages d) of
       None \<Rightarrow>
         (Thrown ''Scheduled message not found in database'', False,
          markFailed d (job_scheduledMessageId job) ''Scheduled message not found in database'')
     | Some row \<Rightarrow>
         if msg_status row = Cancelled then (Skipped ''cancelled'', False, d)
         else
           (let sessionStatus =
                  map_option status (find (\<lambda>s. session_id s = job_sessionId job) (sessions d))
            in if prefix ''appointment_reminder'' (job_messageType job) \<and>
                  sessionStatus \<noteq> Some Completed then
                 (Skipped ''session_not_completed'', False,
                  setMessageStatus d (job_scheduledMessageId job) Cancelled)
               else if (job_messageType job = ''form_reminder_19pm'' \<or>
                        job_messageType job = ''video_testimonial'') \<and>
                       sessionStatus \<noteq> Some Active then
                 (Skipped ''session_not_active'', False,
                  setMessageStatus d (job_scheduledMessageId job) Cancelled)
               else if sendOk then
                 (Delivered, True, setMessageStatus d (job_scheduledMessageId job) Sent)
               else
                 (Thrown ''send failed'', True,
                  markFailed d (job_scheduledMessageId job) ''send failed'')))"

section \<open>Session manager (lib/sessionManager.js)\<close>

text \<open>The loop of \<^verbatim>\<open>createSession\<close> over the existing active sessions.\<close>

fun cancelSessions :: "(nat \<Rightarrow> bool) \<Rightarrow> db \<Rightarrow> string list \<Rightarrow> db" where
  "cancelSessions queueOk d [] = d"
| "cancelSessions queueOk d (sid # rows) =
    cancelSessions queueOk (snd (cancelSessionMessages queueOk d sid ''%'')) rows"

record created =
  cr_sessionId :: string
  cr_phoneNumber :: string
  cr_expiresAt :: int

text \<open>
  \<^verbatim>\<open>createSession(phoneNumber, chatId)\<close>. \<open>sessionId\<close> is the value of
  \<^verbatim>\<open>generateSessionId()\<close> and \<open>now\<close> the clock of the call. Inside the transaction the
  active sessions of the number are set to expired and the new row is inserted; the
  insert throws on a session id already in the table (primary key), and the
  \<^verbatim>\<open>ROLLBACK\<close> then discards the update. The cancellations run on the scheduler's own
  connection and are not rolled back.
\<close>

definition createSession ::
  "(nat \<Rightarrow> bool) \<Rightarrow> db \<Rightarrow> string \<Rightarrow> string option \<Rightarrow> string \<Rightarrow> int \<Rightarrow> (string + created) \<times> db" where
  "createSession queueOk d phoneNumber chatId sessionId now =
    (let existingSessions =
           filter (\<lambda>s. phone_number s = phoneNumber \<and> status s = Active) (sessions d);
         d1 = cancelSessions queueOk d (map session_id existingSessions);
         updated =
           map (\<lambda>s. if phone_number s = phoneNumber \<and> status s = Active
                     then s\<lparr>status := Expired\<rparr> else s) (sessions d1);
         expiresAt = now + 24 * 60 * 60 * 1000
     in if sessionId \<in> session_id ` set updated then
          (Inl ''duplicate key value violates unique constraint'', d1)
        else
          (Inr \<lparr>cr_sessionId = sessionId, cr_phoneNumber = phoneNumber, cr_expiresAt = expiresAt\<rparr>,
           d1\<lparr>sessions := updated @
                [\<lparr>session_id = sessionId, phone_number = phoneNumber, chat_id = chatId,
                  created_at = now, expires_at = expiresAt, form_data = ''{}'',
                  status = Active, completed_at = None, form_sent_at = Some now,
                  form_completed_at = None, appointment_sent_at = None,
                  appointment_scheduled_at = None, reminders_sent = ([], [])\<rparr>]\<rparr>))"


section \<open>Appointment-scheduled webhook (server.js)\<close>






section \<open>Observations and example states used in the statements\<close>

text \<open>The fire time of the row a scheduling call inserted, if it inserted one.\<close>

definition scheduledTime :: "string + (scheduled_message \<times> db) \<Rightarrow> DateTime option" where
  "scheduledTime r = (case r of Inl e \<Rightarrow> None | Inr (m, d) \<Rightarrow> Some (scheduled_for m))"

text \<open>The store a scheduling call leaves; the store is unchanged when the call threw.\<close>

definition storeAfter :: "db \<Rightarrow> string + ('a \<times> db) \<Rightarrow> db" where
  "storeAfter d r = (case r of Inl e \<Rightarrow> d | Inr (x, d') \<Rightarrow> d')"



text \<open>The store after one \<^verbatim>\<open>createSession\<close> on the empty store.\<close>

definition oneSessionDb :: db where
  "oneSessionDb =
    snd (createSession (\<lambda>i. True) emptyDb ''972500000001'' None ''session_1'' 1000)"



text \<open>
  The store after the chatbot link of \<open>session_1\<close> was scheduled and its first delivery
  attempt threw in \<^verbatim>\<open>sendWhatsAppMessage\<close>; the queue retries such a job.
\<close>

definition linkJob :: job_data where
  "linkJob = \<lparr>job_scheduledMessageId = 1, job_sessionId = ''session_1'',
              job_messageType = ''chatbot_link''\<rparr>"

definition pendingLinkDb :: db where
  "pendingLinkDb =
    storeAfter oneSessionDb
      (scheduleChatbotLink oneSessionDb ''session_1'' ''972500000001''
         (fromObject (2025, 11, 6) 10 0))"

definition failedLinkDb :: db where
  "failedLinkDb = snd (snd (processScheduledMessage False pendingLinkDb linkJob))"


text \<open>
  The row updates of the store written as functions of one row: a cancellation of the
  rows selected by a predicate, the \<^verbatim>\<open>SET\<close> clause of \<^verbatim>\<open>markCompleted\<close>, and the expiry
  of the active sessions of a number.
\<close>

definition cancelIf :: "(scheduled_message \<Rightarrow> bool) \<Rightarrow> scheduled_message \<Rightarrow> scheduled_message" where
  "cancelIf P m = (if P m then m\<lparr>msg_status := Cancelled\<rparr> else m)"


definition expireFor :: "string \<Rightarrow> session \<Rightarrow> session" where
  "expireFor ph s =
    (if phone_number s = ph \<and> status s = Active then s\<lparr>status := Expired\<rparr> else s)"

section \<open>Properties of the reminder policy\<close>

lemma timingLoop_Some:
  "timingLoop now m sent rs = Some n \<Longrightarrow>
     n \<notin> set sent \<and> (\<exists>r \<in> set rs. stage r = n \<and> \<not> m < of_nat (delayMinutes r) \<and> \<not> outsideWindow now r)"
  by (induction rs) (auto split: if_splits)

lemma timingLoop_append:
  "timingLoop now m sent (xs @ ys) =
     (case timingLoop now m sent xs of Some n \<Rightarrow> Some n | None \<Rightarrow> timingLoop now m sent ys)"
  by (induction xs) auto

lemma timingLoop_all_sent:
  "\<forall>p \<in> set pre. stage p \<in> set sent \<Longrightarrow> timingLoop now m sent pre = None"
  by (induction pre) auto

lemma minutesSince_elapsed:
  "(\<not> minutesSince now t < of_nat d) = (int d * 60000 \<le> getTime now - t)"
proof -
  let ?a = "getTime now"
  have "((of_int (?a - t) / (1000 * 60) :: rat) < of_nat d) = ((of_int (?a - t) :: rat) < of_nat d * 60000)"
    by (simp add: divide_less_eq)
  also have "\<dots> = ((of_int (?a - t) :: rat) < of_int (int d * 60000))"
    by simp
  also have "\<dots> = (?a - t < int d * 60000)"
    by (simp only: of_int_less_iff)
  finally show ?thesis by (auto simp: minutesSince_def)
qed

lemma REMINDER_TIMING_stage_inj:
  "r \<in> set (REMINDER_TIMING tm ty) \<Longrightarrow> r' \<in> set (REMINDER_TIMING tm ty) \<Longrightarrow>
     stage r = stage r' \<Longrightarrow> r = r'"
  by (cases ty; cases tm) (auto simp: REMINDER_TIMING_def)


text \<open>
  C5. A stage returned by the policy is not among the already-sent stages, it is a
  stage of the funnel's timing table, and the delay configured for it has elapsed
  between the stage-zero time and the evaluation instant (both in milliseconds).
\<close>

theorem getNextReminderStage_not_sent_and_elapsed:
  "getNextReminderStage IS_TEST_MODE now (Some t) alreadySent type = Some n \<Longrightarrow>
     n \<notin> set alreadySent \<and>
     (\<exists>r \<in> set (REMINDER_TIMING IS_TEST_MODE type). stage r = n) \<and>
     (\<forall>r \<in> set (REMINDER_TIMING IS_TEST_MODE type).
        stage r = n \<longrightarrow> int (delayMinutes r) * 60000 \<le> getTime now - t)"
proof -
  assume res: "getNextReminderStage IS_TEST_MODE now (Some t) alreadySent type = Some n"
  let ?rs = "REMINDER_TIMING IS_TEST_MODE type"
  from res have loop: "timingLoop now (minutesSince now t) alreadySent ?rs = Some n"
    by (simp add: getNextReminderStage_def)
  from timingLoop_Some [OF loop] obtain r0 where
    r0: "r0 \<in> set ?rs" "stage r0 = n" "\<not> minutesSince now t < of_nat (delayMinutes r0)"
    and ns: "n \<notin> set alreadySent"
    by blast
  have "int (delayMinutes r) * 60000 \<le> getTime now - t"
    if "r \<in> set ?rs" "stage r = n" for r
  proof -
    from that r0 have "r = r0" using REMINDER_TIMING_stage_inj by metis
    with r0(3) show ?thesis by (simp add: minutesSince_elapsed)
  qed
  with ns r0 show ?thesis by blast
qed

theorem getNextReminderStage_not_sent_and_elapsed_witness:
  "getNextReminderStage False \<lparr>getTime = 1762156800000, getDay = 1, getHours = 10, isoDate = (2025, 11, 3)\<rparr>
      (Some 1762153200000) [] Form = Some 1 \<and>
   (1::nat) \<notin> set [] \<and>
   stage \<lparr>stage = 1, delayMinutes = 60, windowStart = None, windowEnd = None\<rparr> = 1 \<and>
   int 60 * 60000 \<le> 1762156800000 - 1762153200000"
proof -
  have r: "getNextReminderStage False
      \<lparr>getTime = 1762156800000, getDay = 1, getHours = 10, isoDate = (2025, 11, 3)\<rparr> (Some 1762153200000) [] Form = Some 1"
    by (simp add: getNextReminderStage_def REMINDER_TIMING_def minutesSince_def outsideWindow_def)
  from getNextReminderStage_not_sent_and_elapsed [OF r] r show ?thesis by simp
qed

text \<open>
  C6, as the claim states it, fails: on Monday 2025-11-03 at 18:00 (16:00 UTC), two
  days after stage zero and with stage 1 sent, the form funnel's stage 2 (window
  09:00-12:00) is outside its window, and the policy returns the later stage 3 ahead
  of it.
\<close>

theorem getNextReminderStage_window_counterexample:
  "outsideWindow \<lparr>getTime = 1762185600000, getDay = 1, getHours = 18, isoDate = (2025, 11, 3)\<rparr>
      \<lparr>stage = 2, delayMinutes = 1440, windowStart = Some 9, windowEnd = Some 12\<rparr> \<and>
   getNextReminderStage False
      \<lparr>getTime = 1762185600000, getDay = 1, getHours = 18, isoDate = (2025, 11, 3)\<rparr>
      (Some 1762012800000) [1] Form = Some 3"
  by (simp add: getNextReminderStage_def REMINDER_TIMING_def minutesSince_def outsideWindow_def
      isWithinTimeWindow_def isWithinOperatingHours_def isJewishHoliday_def JEWISH_HOLIDAYS_def)

text \<open>
  C6, amended. When the iteration reaches a rule whose hour window excludes the
  current instant, that stage is not returned by this call, and the iteration goes on
  to the later rules of the table: if no earlier rule is returned, the result is what
  the later rules give. The skipped stage is not recorded anywhere, so at a later
  reading at which the stage is unsent, its delay has elapsed, its window holds and
  all earlier stages are sent, the policy returns it.
\<close>

theorem getNextReminderStage_window_skip:
  assumes tbl: "REMINDER_TIMING IS_TEST_MODE type = pre @ r # post"
    and out: "outsideWindow now r"
  shows "getNextReminderStage IS_TEST_MODE now (Some t) alreadySent type \<noteq> Some (stage r) \<and>
     (timingLoop now (minutesSince now t) alreadySent pre = None \<longrightarrow>
        getNextReminderStage IS_TEST_MODE now (Some t) alreadySent type =
          timingLoop now (minutesSince now t) alreadySent post) \<and>
     (\<forall>later sent'.
        stage r \<notin> set sent' \<and> int (delayMinutes r) * 60000 \<le> getTime later - t \<and>
        \<not> outsideWindow later r \<and> (\<forall>p \<in> set pre. stage p \<in> set sent') \<longrightarrow>
        getNextReminderStage IS_TEST_MODE later (Some t) sent' type = Some (stage r))"
proof (intro conjI allI impI)
  show "getNextReminderStage IS_TEST_MODE now (Some t) alreadySent type \<noteq> Some (stage r)"
  proof
    assume "getNextReminderStage IS_TEST_MODE now (Some t) alreadySent type = Some (stage r)"
    then have "timingLoop now (minutesSince now t) alreadySent (REMINDER_TIMING IS_TEST_MODE type)
        = Some (stage r)"
      by (simp add: getNextReminderStage_def)
    from timingLoop_Some [OF this] obtain r0 where
      r0: "r0 \<in> set (REMINDER_TIMING IS_TEST_MODE type)" "stage r0 = stage r"
        "\<not> outsideWindow now r0"
      by blast
    have "r \<in> set (REMINDER_TIMING IS_TEST_MODE type)" by (simp add: tbl)
    with r0 have "r0 = r" using REMINDER_TIMING_stage_inj by metis
    with r0(3) out show False by simp
  qed
next
  assume "timingLoop now (minutesSince now t) alreadySent pre = None"
  with out show "getNextReminderStage IS_TEST_MODE now (Some t) alreadySent type =
      timingLoop now (minutesSince now t) alreadySent post"
    by (simp add: getNextReminderStage_def tbl timingLoop_append)
next
  fix later sent'
  assume a: "stage r \<notin> set sent' \<and> int (delayMinutes r) * 60000 \<le> getTime later - t \<and>
        \<not> outsideWindow later r \<and> (\<forall>p \<in> set pre. stage p \<in> set sent')"
  then have "timingLoop later (minutesSince later t) sent' pre = None"
    by (simp add: timingLoop_all_sent)
  moreover from a have "\<not> minutesSince later t < of_nat (delayMinutes r)"
    by (simp add: minutesSince_elapsed)
  ultimately show "getNextReminderStage IS_TEST_MODE later (Some t) sent' type = Some (stage r)"
    using a by (simp add: getNextReminderStage_def tbl timingLoop_append)
qed

theorem getNextReminderStage_window_skip_witness:
  "REMINDER_TIMING False Form =
     [\<lparr>stage = 1, delayMinutes = 60, windowStart = None, windowEnd = None\<rparr>] @
     \<lparr>stage = 2, delayMinutes = 1440, windowStart = Some 9, windowEnd = Some 12\<rparr> #
     [\<lparr>stage = 3, delayMinutes = 2880, windowStart = Some 18, windowEnd = Some 20\<rparr>] \<and>
   outsideWindow \<lparr>getTime = 1762185600000, getDay = 1, getHours = 18, isoDate = (2025, 11, 3)\<rparr>
     \<lparr>stage = 2, delayMinutes = 1440, windowStart = Some 9, windowEnd = Some 12\<rparr> \<and>
   getNextReminderStage False
     \<lparr>getTime = 1762185600000, getDay = 1, getHours = 18, isoDate = (2025, 11, 3)\<rparr>
     (Some 1762012800000) [1] Form \<noteq> Some 2 \<and>
   getNextReminderStage False
     \<lparr>getTime = 1762243200000, getDay = 2, getHours = 10, isoDate = (2025, 11, 4)\<rparr>
     (Some 1762012800000) [1] Form = Some 2"
proof -
  let ?r1 = "\<lparr>stage = 1, delayMinutes = 60, windowStart = None, windowEnd = None\<rparr>"
  let ?r2 = "\<lparr>stage = 2, delayMinutes = 1440, windowStart = Some 9, windowEnd = Some 12\<rparr>"
  let ?r3 = "\<lparr>stage = 3, delayMinutes = 2880, windowStart = Some 18, windowEnd = Some 20\<rparr>"
  let ?now = "\<lparr>getTime = 1762185600000, getDay = 1, getHours = 18, isoDate = (2025, 11, 3)\<rparr>"
  let ?later = "\<lparr>getTime = 1762243200000, getDay = 2, getHours = 10, isoDate = (2025, 11, 4)\<rparr>"
  have tbl: "REMINDER_TIMING False Form = [?r1] @ ?r2 # [?r3]"
    by (simp add: REMINDER_TIMING_def)
  have out: "outsideWindow ?now ?r2"
    by (simp add: outsideWindow_def isWithinTimeWindow_def)
  have inw: "\<not> outsideWindow ?later ?r2"
    by (simp add: outsideWindow_def isWithinTimeWindow_def isWithinOperatingHours_def
        isJewishHoliday_def JEWISH_HOLIDAYS_def)
  note th = getNextReminderStage_window_skip [OF tbl out, of 1762012800000 "[1]"]
  from th have a: "getNextReminderStage False ?now (Some 1762012800000) [1] Form \<noteq> Some 2"
    by simp
  from th have "stage ?r2 \<notin> set [1] \<and> int (delayMinutes ?r2) * 60000 \<le> getTime ?later - 1762012800000 \<and>
        \<not> outsideWindow ?later ?r2 \<and> (\<forall>p \<in> set [?r1]. stage p \<in> set [1]) \<longrightarrow>
        getNextReminderStage False ?later (Some 1762012800000) [1] Form = Some (stage ?r2)"
    by blast
  with inw have b: "getNextReminderStage False ?later (Some 1762012800000) [1] Form = Some 2"
    by simp
  from tbl out a b show ?thesis by blast
qed

section \<open>Properties of the timezone helper and of the scheduled times\<close>

text \<open>The day count and the weekday on known dates.\<close>

lemma days_from_civil_examples:
  "days_from_civil (1970, 1, 1) = 0 \<and> days_from_civil (2000, 3, 1) = 11017 \<and>
   days_from_civil (2025, 9, 23) = 20354 \<and>
   weekday (fromObject (1970, 1, 1) 0 0) = THURSDAY \<and>
   weekday (fromObject (2025, 11, 6) 17 30) = THURSDAY \<and>
   weekday (fromObject (2025, 11, 7) 10 0) = FRIDAY \<and>
   weekday (fromObject (2025, 11, 9) 9 0) = SUNDAY"
  by code_simp

lemma weekday_int: "int (weekday t) = (epochDay t + 3) mod 7 + 1"
  by (simp add: weekday_def)

lemma weekday_range: "1 \<le> weekday t \<and> weekday t \<le> 7"
proof -
  have "1 \<le> int (weekday t) \<and> int (weekday t) \<le> 7"
    unfolding weekday_int by presburger
  then show ?thesis by simp
qed

lemma weekday_setHour [simp]: "weekday (setHour t h) = weekday t"
  by (simp add: weekday_def setHour_def)

lemma weekday_friday_plus2: 
  assumes "weekday t = 5" shows "weekday (plusDays t 2) = 7"
proof -
  from assms have "int (weekday t) = 5" by simp
  then have "int (weekday (plusDays t 2)) = 7"
    unfolding weekday_int plusDays_def by simp presburger
  then show ?thesis by simp
qed

lemma weekday_saturday_plus1: 
  assumes "weekday t = 6" shows "weekday (plusDays t 1) = 7"
proof -
  from assms have "int (weekday t) = 6" by simp
  then have "int (weekday (plusDays t 1)) = 7"
    unfolding weekday_int plusDays_def by simp presburger
  then show ?thesis by simp
qed

lemma weekday_or_weekend: "isIsraeliWeekday t = (\<not> isIsraeliWeekend t)"
proof -
  from weekday_range [of t] have "weekday t = 1 \<or> weekday t = 2 \<or> weekday t = 3 \<or>
      weekday t = 4 \<or> weekday t = 5 \<or> weekday t = 6 \<or> weekday t = 7" 
    by presburger
  then show ?thesis 
  by (auto simp: isIsraeliWeekday_def isIsraeliWeekend_def ISRAELI_WEEKDAYS_def Let_def) 
qed

lemma localMillis_setHour: "localMillis (setHour t h) = (epochDay t * 24 + int h) * 3600000"
  by (simp add: localMillis_def setHour_def)

lemma epochDay_setHour [simp]: "epochDay (setHour t h) = epochDay t"
  by (simp add: setHour_def)

lemma epochDay_plusDays [simp]: "epochDay (plusDays t n) = epochDay t + n"
  by (simp add: plusDays_def)

lemma hour_setHour [simp]: "hour (setHour t h) = h"
  by (simp add: setHour_def)

lemma localMillis_bounds:
  assumes "validDateTime t"
  shows "(epochDay t * 24 + int (hour t)) * 3600000 \<le> localMillis t"
    and "localMillis t < (epochDay t * 24 + int (hour t) + 1) * 3600000"
  using assms by (simp_all add: validDateTime_def localMillis_def)

lemma getNextValidBusinessTime_weekend:
  "isIsraeliWeekend u \<Longrightarrow>
     getNextValidBusinessTime u ch =
       setHour (plusDays u (if weekday u = 5 then 2 else 1)) (hours_start (hoursOr ch))"
  by (subst getNextValidBusinessTime.simps) (simp add: isValidReminderTime_def weekday_or_weekend)

lemma weekend_to_sunday:
  "isIsraeliWeekend u \<Longrightarrow> weekday (plusDays u (if weekday u = 5 then 2 else 1)) = 7"
  by (auto simp: isIsraeliWeekend_def Let_def weekday_friday_plus2 weekday_saturday_plus1)

lemma start_valid:
  "\<not> isIsraeliWeekend u \<Longrightarrow> hours_start (hoursOr ch) < hours_end (hoursOr ch) \<Longrightarrow>
     isValidReminderTime (setHour u (hours_start (hoursOr ch))) ch"
  by (simp add: isValidReminderTime_def weekday_or_weekend isIsraeliWeekend_def Let_def
      isWithinBusinessHours_def)

lemma sunday_not_weekend: "weekday u = 7 \<Longrightarrow> \<not> isIsraeliWeekend u"
  by (simp add: isIsraeliWeekend_def Let_def)

lemma getNextValidBusinessTime_valid:
  "isValidReminderTime t ch \<Longrightarrow> getNextValidBusinessTime t ch = t"
  by (subst getNextValidBusinessTime.simps) simp

lemma hoursOr_None [simp]: "hours_start (hoursOr None) = 9" "hours_end (hoursOr None) = 20"
  by (simp_all add: hoursOr_def BUSINESS_HOURS_def)

lemma scheduledTime_scheduleMessage:
  "sid \<in> session_id ` set (sessions d) \<Longrightarrow>
     scheduledTime (scheduleMessage d sid ph c ty x) = Some x"
  by (simp add: scheduledTime_def scheduleMessage_def Let_def)

lemma resolved_19pm:
  "getNextValidBusinessTime (calculate19pmReminderTime t) None =
     (if isIsraeliWeekday (calculate19pmReminderTime t) then calculate19pmReminderTime t
      else setHour (plusDays (calculate19pmReminderTime t)
             (if weekday (calculate19pmReminderTime t) = FRIDAY then 2 else 1)) 9)"
proof (cases "isIsraeliWeekday (calculate19pmReminderTime t)")
  case True
  then have "isValidReminderTime (calculate19pmReminderTime t) None"
    by (simp add: isValidReminderTime_def isWithinBusinessHours_def calculate19pmReminderTime_def)
  with True show ?thesis by (simp add: getNextValidBusinessTime_valid)
next
  case False
  then have "isIsraeliWeekend (calculate19pmReminderTime t)"
    by (simp add: weekday_or_weekend)
  from getNextValidBusinessTime_weekend [OF this, of None] False show ?thesis by simp
qed

lemma getNextValidBusinessTime_rolls_forward:
  assumes inv: "\<not> isValidReminderTime t ch"
    and wf: "validDateTime t"
    and hrs: "hours_start (hoursOr ch) < hours_end (hoursOr ch)"
  shows "isValidReminderTime (getNextValidBusinessTime t ch) ch \<and>
         localMillis t < localMillis (getNextValidBusinessTime t ch)"
proof -
  let ?s = "hours_start (hoursOr ch)"
  let ?e = "hours_end (hoursOr ch)"
  note lb = localMillis_bounds [OF wf]
  from wf have h24: "hour t < 24" by (simp add: validDateTime_def)
  show ?thesis
  proof (cases "isIsraeliWeekend t")
    case True
    let ?r = "setHour (plusDays t (if weekday t = 5 then 2 else 1)) ?s"
    have r: "getNextValidBusinessTime t ch = ?r"
      by (rule getNextValidBusinessTime_weekend [OF True])
    have "\<not> isIsraeliWeekend (plusDays t (if weekday t = 5 then 2 else 1))"
      by (rule sunday_not_weekend [OF weekend_to_sunday [OF True]])
    from start_valid [OF this hrs] have v: "isValidReminderTime ?r ch" .
    have "localMillis t < localMillis ?r"
      using lb h24 by (simp add: localMillis_setHour)
    with v r show ?thesis by simp
  next
    case False
    with inv have nbh: "\<not> isWithinBusinessHours t ch"
      by (simp add: isValidReminderTime_def weekday_or_weekend)
    show ?thesis
    proof (cases "hour t < ?s")
      case True
      have r: "getNextValidBusinessTime t ch = setHour t ?s"
        using inv False nbh True by (subst getNextValidBusinessTime.simps) simp
      have "localMillis t < localMillis (setHour t ?s)"
        using lb True by (simp add: localMillis_setHour)
      with start_valid [OF False hrs] r show ?thesis by simp
    next
      case nlt: False
      with nbh have ge: "hour t \<ge> ?e"
        by (simp add: isWithinBusinessHours_def Let_def)
      let ?n = "setHour (plusDays t 1) ?s"
      show ?thesis
      proof (cases "isIsraeliWeekend ?n")
        case True
        let ?r = "setHour (plusDays ?n (if weekday ?n = 5 then 2 else 1)) ?s"
        have "getNextValidBusinessTime t ch = getNextValidBusinessTime ?n ch"
          using inv False nbh nlt ge True by (subst getNextValidBusinessTime.simps) simp
        also have "\<dots> = ?r" by (rule getNextValidBusinessTime_weekend [OF True])
        finally have r: "getNextValidBusinessTime t ch = ?r" .
        have "\<not> isIsraeliWeekend (plusDays ?n (if weekday ?n = 5 then 2 else 1))"
          by (rule sunday_not_weekend [OF weekend_to_sunday [OF True]])
        from start_valid [OF this hrs] have v: "isValidReminderTime ?r ch" .
        have "localMillis t < localMillis ?r"
          using lb h24 by (simp add: localMillis_setHour)
        with v r show ?thesis by simp
      next
        case nw: False
        have r: "getNextValidBusinessTime t ch = ?n"
          using inv False nbh nlt ge nw by (subst getNextValidBusinessTime.simps) simp
        have "\<not> isIsraeliWeekend (plusDays t 1)"
          using nw by (simp add: isIsraeliWeekend_def)
        from start_valid [OF this hrs] have v: "isValidReminderTime ?n ch" .
        have "localMillis t < localMillis ?n"
          using lb h24 by (simp add: localMillis_setHour)
        with v r show ?thesis by simp
      qed
    qed
  qed
qed


text \<open>
  C4, as the claim states it, fails. Tuesday 2025-09-23 10:00 is on a listed holiday
  (Rosh Hashanah) and is returned unchanged, so the result is neither later nor off the
  holiday; and from Friday 2025-04-11 16:00 the result is Sunday 2025-04-13 09:00, a
  listed holiday (Pesach).
\<close>

theorem getNextValidBusinessTime_holiday_counterexample:
  "(2025, 9, 23) \<in> set JEWISH_HOLIDAYS \<and>
   getNextValidBusinessTime (fromObject (2025, 9, 23) 10 0) None = fromObject (2025, 9, 23) 10 0 \<and>
   (2025, 4, 13) \<in> set JEWISH_HOLIDAYS \<and>
   getNextValidBusinessTime (fromObject (2025, 4, 11) 16 0) None = fromObject (2025, 4, 13) 9 0"
  by code_simp

text \<open>
  C4, amended. Holidays are not consulted by \<^verbatim>\<open>getNextValidBusinessTime\<close>. For every
  well-formed instant and every window with start before end (the default 09:00-20:00
  included): an instant that is a valid reminder time (Sunday to Thursday, hour inside
  the window) is returned unchanged; any other instant (a Friday or Saturday, or an hour
  outside the window) yields a strictly later instant that is a valid reminder time,
  also when the next day is itself a Friday or Saturday.
\<close>

theorem getNextValidBusinessTime_valid_and_later:
  assumes wf: "validDateTime t"
    and hrs: "hours_start (hoursOr ch) < hours_end (hoursOr ch)"
  shows "if isValidReminderTime t ch then getNextValidBusinessTime t ch = t
         else isValidReminderTime (getNextValidBusinessTime t ch) ch \<and>
              localMillis t < localMillis (getNextValidBusinessTime t ch)"
  using getNextValidBusinessTime_rolls_forward [OF _ wf hrs] getNextValidBusinessTime_valid
  by simp

theorem getNextValidBusinessTime_valid_and_later_witness:
  "validDateTime (fromObject (2025, 11, 6) 20 0) \<and>
   hours_start (hoursOr None) < hours_end (hoursOr None) \<and>
   \<not> isValidReminderTime (fromObject (2025, 11, 6) 20 0) None \<and>
   getNextValidBusinessTime (fromObject (2025, 11, 6) 20 0) None = fromObject (2025, 11, 9) 9 0 \<and>
   isValidReminderTime (fromObject (2025, 11, 9) 9 0) None \<and>
   localMillis (fromObject (2025, 11, 6) 20 0) < localMillis (fromObject (2025, 11, 9) 9 0)"
proof -
  have wf: "validDateTime (fromObject (2025, 11, 6) 20 0)" by code_simp
  have hrs: "hours_start (hoursOr None) < hours_end (hoursOr None)" by simp
  have inv: "\<not> isValidReminderTime (fromObject (2025, 11, 6) 20 0) None" by code_simp
  have r: "getNextValidBusinessTime (fromObject (2025, 11, 6) 20 0) None = fromObject (2025, 11, 9) 9 0"
    by code_simp
  from getNextValidBusinessTime_valid_and_later [OF wf hrs] inv r wf hrs
  show ?thesis by simp
qed

text \<open>
  C7, as the claim states it, fails on the times that are scheduled. After a trigger on
  Friday 2025-11-07 10:00 the 19:00 reminder is scheduled for Sunday 2025-11-09 09:00, not
  for 19:00 of the same day; and after a trigger on Thursday 2025-11-06 17:30 the second
  message is scheduled for Sunday 2025-11-09 09:00, not for Thursday 20:00.
\<close>

theorem one_time_reminder_counterexample:
  "scheduledTime (schedule19pmReminder oneSessionDb ''session_1'' ''972500000001''
      (fromObject (2025, 11, 7) 10 0)) = Some (fromObject (2025, 11, 9) 9 0) \<and>
   scheduledTime (scheduleVideoTestimonial oneSessionDb ''session_1'' ''972500000001''
      (fromObject (2025, 11, 6) 17 30)) = Some (fromObject (2025, 11, 9) 9 0)"
  by code_simp

text \<open>
  C7, amended. \<^verbatim>\<open>calculate19pmReminderTime\<close> gives 19:00:00.000 of the same day when
  the first message's hour is before 18 and of the next calendar day otherwise, and
  \<^verbatim>\<open>calculateVideoTestimonialTime\<close> gives 20:00:00.000 of that same day, exactly one hour
  later. \<^verbatim>\<open>schedule19pmReminder\<close> schedules the 19:00 instant itself when its day is
  Sunday to Thursday and 09:00 of the following Sunday when it is a Friday or Saturday.
  A trigger on a Thursday at 17:30 gets its first reminder scheduled for 19:00 of that
  Thursday.
\<close>

theorem one_time_reminder_times:
  "epochDay (calculate19pmReminderTime t) = (if hour t < 18 then epochDay t else epochDay t + 1) \<and>
   hour (calculate19pmReminderTime t) = 19 \<and> minute (calculate19pmReminderTime t) = 0 \<and>
   second (calculate19pmReminderTime t) = 0 \<and> millisecond (calculate19pmReminderTime t) = 0 \<and>
   epochDay (calculateVideoTestimonialTime t) = epochDay (calculate19pmReminderTime t) \<and>
   hour (calculateVideoTestimonialTime t) = 20 \<and> minute (calculateVideoTestimonialTime t) = 0 \<and>
   second (calculateVideoTestimonialTime t) = 0 \<and> millisecond (calculateVideoTestimonialTime t) = 0 \<and>
   localMillis (calculateVideoTestimonialTime t) =
     localMillis (calculate19pmReminderTime t) + 3600000 \<and>
   (sid \<in> session_id ` set (sessions d) \<longrightarrow>
      scheduledTime (schedule19pmReminder d sid ph t) =
        Some (if isIsraeliWeekday (calculate19pmReminderTime t) then calculate19pmReminderTime t
              else setHour (plusDays (calculate19pmReminderTime t)
                     (if weekday (calculate19pmReminderTime t) = FRIDAY then 2 else 1)) 9)) \<and>
   (sid \<in> session_id ` set (sessions d) \<and> weekday t = THURSDAY \<and> hour t = 17 \<and> minute t = 30 \<longrightarrow>
      scheduledTime (schedule19pmReminder d sid ph t) =
        Some \<lparr>epochDay = epochDay t, hour = 19, minute = 0, second = 0, millisecond = 0\<rparr>)"
proof -
  have calc: "epochDay (calculate19pmReminderTime t) = (if hour t < 18 then epochDay t else epochDay t + 1) \<and>
   hour (calculate19pmReminderTime t) = 19 \<and> minute (calculate19pmReminderTime t) = 0 \<and>
   second (calculate19pmReminderTime t) = 0 \<and> millisecond (calculate19pmReminderTime t) = 0"
    by (simp add: calculate19pmReminderTime_def setHour_def plusDays_def)
  have video: "epochDay (calculateVideoTestimonialTime t) = epochDay (calculate19pmReminderTime t) \<and>
   hour (calculateVideoTestimonialTime t) = 20 \<and> minute (calculateVideoTestimonialTime t) = 0 \<and>
   second (calculateVideoTestimonialTime t) = 0 \<and> millisecond (calculateVideoTestimonialTime t) = 0"
    by (simp add: calculateVideoTestimonialTime_def setHour_def)
  have hourLater: "localMillis (calculateVideoTestimonialTime t) =
     localMillis (calculate19pmReminderTime t) + 3600000"
    using calc video by (simp add: localMillis_def)
  have sched: "scheduledTime (schedule19pmReminder d sid ph t) =
        Some (if isIsraeliWeekday (calculate19pmReminderTime t) then calculate19pmReminderTime t
              else setHour (plusDays (calculate19pmReminderTime t)
                     (if weekday (calculate19pmReminderTime t) = FRIDAY then 2 else 1)) 9)"
    if "sid \<in> session_id ` set (sessions d)"
    using that
    by (simp only: schedule19pmReminder_def Let_def scheduledTime_scheduleMessage resolved_19pm)
  have thu: "scheduledTime (schedule19pmReminder d sid ph t) =
        Some \<lparr>epochDay = epochDay t, hour = 19, minute = 0, second = 0, millisecond = 0\<rparr>"
    if "sid \<in> session_id ` set (sessions d) \<and> weekday t = THURSDAY \<and> hour t = 17 \<and> minute t = 30"
  proof -
    from that have c: "calculate19pmReminderTime t = setHour t 19"
      by (simp add: calculate19pmReminderTime_def)
    from that have "isIsraeliWeekday (setHour t 19)"
      by (simp add: isIsraeliWeekday_def ISRAELI_WEEKDAYS_def)
    with sched that c show ?thesis by (simp add: setHour_def)
  qed
  from calc video hourLater sched thu show ?thesis by blast
qed


theorem one_time_reminder_times_witness:
  "''session_1'' \<in> session_id ` set (sessions oneSessionDb) \<and>
   weekday (fromObject (2025, 11, 6) 17 30) = THURSDAY \<and>
   hour (fromObject (2025, 11, 6) 17 30) = 17 \<and> minute (fromObject (2025, 11, 6) 17 30) = 30 \<and>
   scheduledTime (schedule19pmReminder oneSessionDb ''session_1'' ''972500000001''
      (fromObject (2025, 11, 6) 17 30)) = Some (fromObject (2025, 11, 6) 19 0) \<and>
   calculateVideoTestimonialTime (fromObject (2025, 11, 6) 17 30) = fromObject (2025, 11, 6) 20 0"
proof -
  have mem: "''session_1'' \<in> session_id ` set (sessions oneSessionDb)" by code_simp
  have thu: "weekday (fromObject (2025, 11, 6) 17 30) = THURSDAY" by code_simp
  have hm: "hour (fromObject (2025, 11, 6) 17 30) = 17 \<and> minute (fromObject (2025, 11, 6) 17 30) = 30"
    by (simp add: fromObject_def)
  have v: "calculateVideoTestimonialTime (fromObject (2025, 11, 6) 17 30) = fromObject (2025, 11, 6) 20 0"
    by code_simp
  from one_time_reminder_times [of "fromObject (2025, 11, 6) 17 30" "''session_1''" oneSessionDb
      "''972500000001''"] mem thu hm
  have "scheduledTime (schedule19pmReminder oneSessionDb ''session_1'' ''972500000001''
      (fromObject (2025, 11, 6) 17 30)) =
        Some \<lparr>epochDay = epochDay (fromObject (2025, 11, 6) 17 30), hour = 19, minute = 0,
               second = 0, millisecond = 0\<rparr>"
    by blast
  then have "scheduledTime (schedule19pmReminder oneSessionDb ''session_1'' ''972500000001''
      (fromObject (2025, 11, 6) 17 30)) = Some (fromObject (2025, 11, 6) 19 0)"
    by (simp add: fromObject_def)
  with mem thu hm v show ?thesis by blast
qed

text \<open>
  C9. \<^verbatim>\<open>scheduleAppointmentReminders\<close> schedules the four reminders in order, and the
  fire time of each stage after the first is \<^verbatim>\<open>calculateNextAppointmentReminderTime\<close> of
  the fire time that was scheduled for the stage before it (the time after the business
  calendar moved it), never of the time the appointment link was sent.
\<close>

theorem scheduleAppointmentReminders_chain:
  assumes "sid \<in> session_id ` set (sessions d)"
  shows "\<exists>m1 m2 m3 m4 d'.
     scheduleAppointmentReminders d sid ph t = Inr ([m1, m2, m3, m4], d') \<and>
     message_type m1 = APPOINTMENT_REMINDER_1 \<and> message_type m2 = APPOINTMENT_REMINDER_2 \<and>
     message_type m3 = APPOINTMENT_REMINDER_3 \<and> message_type m4 = APPOINTMENT_REMINDER_4 \<and>
     scheduled_for m1 = calculateNextAppointmentReminderTime t \<and>
     scheduled_for m2 = calculateNextAppointmentReminderTime (scheduled_for m1) \<and>
     scheduled_for m3 = calculateNextAppointmentReminderTime (scheduled_for m2) \<and>
     scheduled_for m4 = calculateNextAppointmentReminderTime (scheduled_for m3)"
  using assms by (simp add: scheduleAppointmentReminders_def scheduleMessage_def Let_def)


theorem scheduleAppointmentReminders_chain_witness:
  "''session_1'' \<in> session_id ` set (sessions oneSessionDb) \<and>
   setHour (plusDays (fromObject (2025, 11, 6) 10 0) 1) 19 = fromObject (2025, 11, 7) 19 0 \<and>
   isIsraeliWeekend (fromObject (2025, 11, 7) 19 0) \<and>
   (\<exists>m1 m2 m3 m4 d'.
      scheduleAppointmentReminders oneSessionDb ''session_1'' ''972500000001''
        (fromObject (2025, 11, 6) 10 0) = Inr ([m1, m2, m3, m4], d') \<and>
      scheduled_for m1 = fromObject (2025, 11, 9) 9 0 \<and>
      scheduled_for m2 = fromObject (2025, 11, 10) 19 0 \<and>
      scheduled_for m3 = fromObject (2025, 11, 11) 19 0 \<and>
      scheduled_for m4 = fromObject (2025, 11, 12) 19 0)"
proof -
  have mem: "''session_1'' \<in> session_id ` set (sessions oneSessionDb)" by code_simp
  have cand: "setHour (plusDays (fromObject (2025, 11, 6) 10 0) 1) 19 = fromObject (2025, 11, 7) 19 0"
    by code_simp
  have blocked: "isIsraeliWeekend (fromObject (2025, 11, 7) 19 0)" by code_simp
  have e1: "calculateNextAppointmentReminderTime (fromObject (2025, 11, 6) 10 0) =
      fromObject (2025, 11, 9) 9 0" by code_simp
  have e2: "calculateNextAppointmentReminderTime (fromObject (2025, 11, 9) 9 0) =
      fromObject (2025, 11, 10) 19 0" by code_simp
  have e3: "calculateNextAppointmentReminderTime (fromObject (2025, 11, 10) 19 0) =
      fromObject (2025, 11, 11) 19 0" by code_simp
  have e4: "calculateNextAppointmentReminderTime (fromObject (2025, 11, 11) 19 0) =
      fromObject (2025, 11, 12) 19 0" by code_simp
  from scheduleAppointmentReminders_chain [OF mem, of "''972500000001''" "fromObject (2025, 11, 6) 10 0"]
  obtain m1 m2 m3 m4 d' where
    r: "scheduleAppointmentReminders oneSessionDb ''session_1'' ''972500000001''
        (fromObject (2025, 11, 6) 10 0) = Inr ([m1, m2, m3, m4], d')"
    and s1: "scheduled_for m1 = calculateNextAppointmentReminderTime (fromObject (2025, 11, 6) 10 0)"
    and s2: "scheduled_for m2 = calculateNextAppointmentReminderTime (scheduled_for m1)"
    and s3: "scheduled_for m3 = calculateNextAppointmentReminderTime (scheduled_for m2)"
    and s4: "scheduled_for m4 = calculateNextAppointmentReminderTime (scheduled_for m3)"
    by blast
  from s1 e1 have t1: "scheduled_for m1 = fromObject (2025, 11, 9) 9 0" by simp
  from s2 t1 e2 have t2: "scheduled_for m2 = fromObject (2025, 11, 10) 19 0" by simp
  from s3 t2 e3 have t3: "scheduled_for m3 = fromObject (2025, 11, 11) 19 0" by simp
  from s4 t3 e4 have t4: "scheduled_for m4 = fromObject (2025, 11, 12) 19 0" by simp
  from mem cand blocked r t1 t2 t3 t4 show ?thesis by blast
qed

section \<open>Properties of the session store and of the delivery worker\<close>










lemma sql_like_all [simp]: "sql_like s ''%''"
  by (induction s) (simp_all add: sql_like.simps)

lemma find_msg_distinct:
  "distinct (map msg_id ms) \<Longrightarrow> m \<in> set ms \<Longrightarrow> find (\<lambda>x. msg_id x = msg_id m) ms = Some m"
  by (induction ms) (auto simp: rev_image_eqI)

lemma msg_id_unique:
  "distinct (map msg_id ms) \<Longrightarrow> x \<in> set ms \<Longrightarrow> y \<in> set ms \<Longrightarrow> msg_id x = msg_id y \<Longrightarrow> x = y"
  by (auto simp: distinct_map dest: inj_onD)

lemma find_msg_None: "(find (\<lambda>x. msg_id x = i) ms = None) = (i \<notin> msg_id ` set ms)"
  by (induction ms) auto

lemma cancelScheduledMessage_rows:
  assumes "distinct (map msg_id (scheduled_messages d))"
  shows "snd (cancelScheduledMessage q d i) =
     d\<lparr>scheduled_messages :=
         map (cancelIf (\<lambda>m. msg_id m = i \<and> msg_status m = Pending \<and> q (msg_id m)))
           (scheduled_messages d)\<rparr>"
proof (cases "find (\<lambda>m. msg_id m = i) (scheduled_messages d)")
  case None
  then have "\<forall>m \<in> set (scheduled_messages d). msg_id m \<noteq> i"
    by (auto simp: find_msg_None)
  then have "map (cancelIf (\<lambda>m. msg_id m = i \<and> msg_status m = Pending \<and> q (msg_id m)))
           (scheduled_messages d) = scheduled_messages d"
    by (simp add: cancelIf_def map_idI)
  with None show ?thesis by (simp add: cancelScheduledMessage_def)
next
  case (Some r)
  then have r: "r \<in> set (scheduled_messages d)" "msg_id r = i"
    by (auto simp: find_Some_iff)
  have uniq: "x = r" if "x \<in> set (scheduled_messages d)" "msg_id x = i" for x
    using that r assms by (auto intro: msg_id_unique)
  show ?thesis
  proof (cases "msg_status r = Pending \<and> q i")
    case True
    have "map (\<lambda>m. if msg_id m = i then m\<lparr>msg_status := Cancelled\<rparr> else m) (scheduled_messages d) =
       map (cancelIf (\<lambda>m. msg_id m = i \<and> msg_status m = Pending \<and> q (msg_id m))) (scheduled_messages d)"
      using uniq True by (intro map_cong) (auto simp: cancelIf_def)
    with Some True show ?thesis by (simp add: cancelScheduledMessage_def setMessageStatus_def)
  next
    case False
    have "map (cancelIf (\<lambda>m. msg_id m = i \<and> msg_status m = Pending \<and> q (msg_id m)))
           (scheduled_messages d) = scheduled_messages d"
      using uniq False by (intro map_idI) (auto simp: cancelIf_def)
    with Some False show ?thesis by (auto simp: cancelScheduledMessage_def)
  qed
qed

lemma msg_id_cancelIf [simp]: "msg_id (cancelIf P m) = msg_id m"
  by (simp add: cancelIf_def)

lemma cancelRows_rows:
  assumes "distinct (map msg_id (scheduled_messages d))"
  shows "snd (cancelRows q d is n) =
     d\<lparr>scheduled_messages :=
         map (cancelIf (\<lambda>m. msg_id m \<in> set is \<and> msg_status m = Pending \<and> q (msg_id m)))
           (scheduled_messages d)\<rparr>"
  using assms
proof (induction "is" arbitrary: d n)
  case Nil
  then show ?case by (simp add: cancelIf_def)
next
  case (Cons i "is")
  let ?d1 = "snd (cancelScheduledMessage q d i)"
  have d1: "?d1 = d\<lparr>scheduled_messages :=
         map (cancelIf (\<lambda>m. msg_id m = i \<and> msg_status m = Pending \<and> q (msg_id m)))
           (scheduled_messages d)\<rparr>"
    by (rule cancelScheduledMessage_rows [OF Cons.prems])
  have dist: "distinct (map msg_id (scheduled_messages ?d1))"
    using Cons.prems by (simp add: d1 o_def)
  have "snd (cancelRows q d (i # is) n) =
      snd (cancelRows q ?d1 is (if fst (cancelScheduledMessage q d i) then n + 1 else n))"
    by (simp add: case_prod_beta)
  also have "\<dots> = ?d1\<lparr>scheduled_messages :=
         map (cancelIf (\<lambda>m. msg_id m \<in> set is \<and> msg_status m = Pending \<and> q (msg_id m)))
           (scheduled_messages ?d1)\<rparr>"
    by (rule Cons.IH [OF dist])
  also have "\<dots> = d\<lparr>scheduled_messages :=
         map (cancelIf (\<lambda>m. msg_id m \<in> set (i # is) \<and> msg_status m = Pending \<and> q (msg_id m)))
           (scheduled_messages d)\<rparr>"
    by (simp add: d1 o_def cancelIf_def cong: map_cong)
  finally show ?case .
qed

lemma cancelSessionMessages_rows:
  assumes "distinct (map msg_id (scheduled_messages d))"
  shows "snd (cancelSessionMessages q d sid pat) =
     d\<lparr>scheduled_messages :=
         map (cancelIf (\<lambda>m. msg_session_id m = sid \<and> sql_like (message_type m) pat \<and>
                              msg_status m = Pending \<and> q (msg_id m)))
           (scheduled_messages d)\<rparr>"
proof -
  let ?sel = "\<lambda>m. msg_session_id m = sid \<and> msg_status m = Pending \<and> sql_like (message_type m) pat"
  have mem: "(msg_id m \<in> set (map msg_id (filter ?sel (scheduled_messages d)))) = ?sel m"
    if "m \<in> set (scheduled_messages d)" for m
  proof
    assume "msg_id m \<in> set (map msg_id (filter ?sel (scheduled_messages d)))"
    then obtain x where x: "x \<in> set (scheduled_messages d)" "?sel x" "msg_id x = msg_id m"
      by auto
    with that assms have "x = m" by (auto intro: msg_id_unique)
    with x show "?sel m" by simp
  next
    assume "?sel m"
    with that show "msg_id m \<in> set (map msg_id (filter ?sel (scheduled_messages d)))" by auto
  qed
  have "map (cancelIf (\<lambda>m. msg_id m \<in> set (map msg_id (filter ?sel (scheduled_messages d))) \<and>
                           msg_status m = Pending \<and> q (msg_id m))) (scheduled_messages d) =
        map (cancelIf (\<lambda>m. msg_session_id m = sid \<and> sql_like (message_type m) pat \<and>
                              msg_status m = Pending \<and> q (msg_id m))) (scheduled_messages d)"
  proof (rule map_cong [OF refl])
    fix m assume "m \<in> set (scheduled_messages d)"
    from mem [OF this]
    have "(msg_id m \<in> set (map msg_id (filter ?sel (scheduled_messages d))) \<and>
             msg_status m = Pending \<and> q (msg_id m)) =
          (msg_session_id m = sid \<and> sql_like (message_type m) pat \<and>
             msg_status m = Pending \<and> q (msg_id m))"
      by blast
    then show "cancelIf (\<lambda>m. msg_id m \<in> set (map msg_id (filter ?sel (scheduled_messages d))) \<and>
                           msg_status m = Pending \<and> q (msg_id m)) m =
        cancelIf (\<lambda>m. msg_session_id m = sid \<and> sql_like (message_type m) pat \<and>
                              msg_status m = Pending \<and> q (msg_id m)) m"
      by (simp only: cancelIf_def)
  qed
  then show ?thesis
    unfolding cancelSessionMessages_def Let_def
    by (simp add: cancelRows_rows [OF assms])
qed

lemma find_map_cancelIf:
  assumes "distinct (map msg_id ms)" "m \<in> set ms"
  shows "find (\<lambda>x. msg_id x = msg_id m) (map (cancelIf P) ms) = Some (cancelIf P m)"
proof -
  have "distinct (map msg_id (map (cancelIf P) ms))"
    using assms(1) by (simp add: o_def)
  moreover have "cancelIf P m \<in> set (map (cancelIf P) ms)"
    using assms(2) by simp
  ultimately have "find (\<lambda>x. msg_id x = msg_id (cancelIf P m)) (map (cancelIf P) ms) = Some (cancelIf P m)"
    by (rule find_msg_distinct)
  then show ?thesis by simp
qed


text \<open>
  C8, as the claim states it, fails. A job whose first delivery attempt threw has the
  status failed and is retried by the queue; \<^verbatim>\<open>cancelSessionMessages\<close> selects pending
  rows only, so it cancels nothing here, and the retry is delivered.
\<close>

theorem cancelSessionMessages_failed_counterexample:
  "map msg_session_id (scheduled_messages failedLinkDb) = [''session_1''] \<and>
   map msg_status (scheduled_messages failedLinkDb) = [Failed] \<and>
   fst (cancelSessionMessages (\<lambda>i. True) failedLinkDb ''session_1'' ''%'') = 0 \<and>
   fst (processScheduledMessage True
          (snd (cancelSessionMessages (\<lambda>i. True) failedLinkDb ''session_1'' ''%'')) linkJob) =
     Delivered \<and>
   fst (snd (processScheduledMessage True
          (snd (cancelSessionMessages (\<lambda>i. True) failedLinkDb ''session_1'' ''%'')) linkJob))"
  by code_simp

text \<open>
  C8, amended. After \<^verbatim>\<open>cancelSessionMessages(sessionId)\<close> with the match-all pattern,
  every job of that session that was pending, and whose queue removal did not throw, is
  marked cancelled in the store, and the worker, run on such a job at any later moment,
  reads that status and skips the job without calling \<^verbatim>\<open>sendWhatsAppMessage\<close> and
  without changing the store.
\<close>

theorem cancelSessionMessages_then_skipped:
  assumes dist: "distinct (map msg_id (scheduled_messages d))"
    and m: "m \<in> set (scheduled_messages d)"
    and own: "msg_session_id m = sid"
    and pend: "msg_status m = Pending"
    and ok: "queueOk (msg_id m)"
    and j: "job_scheduledMessageId j = msg_id m"
  shows "m\<lparr>msg_status := Cancelled\<rparr> \<in> set (scheduled_messages (snd (cancelSessionMessages queueOk d sid ''%''))) \<and>
     processScheduledMessage sendOk (snd (cancelSessionMessages queueOk d sid ''%'')) j =
       (Skipped ''cancelled'', False, snd (cancelSessionMessages queueOk d sid ''%''))"
proof -
  let ?P = "\<lambda>m. msg_session_id m = sid \<and> sql_like (message_type m) ''%'' \<and>
                 msg_status m = Pending \<and> queueOk (msg_id m)"
  let ?d' = "snd (cancelSessionMessages queueOk d sid ''%'')"
  have d': "?d' = d\<lparr>scheduled_messages := map (cancelIf ?P) (scheduled_messages d)\<rparr>"
    by (rule cancelSessionMessages_rows [OF dist])
  have c: "cancelIf ?P m = m\<lparr>msg_status := Cancelled\<rparr>"
    using own pend ok by (simp add: cancelIf_def)
  have f: "find (\<lambda>x. msg_id x = job_scheduledMessageId j) (scheduled_messages ?d') =
      Some (m\<lparr>msg_status := Cancelled\<rparr>)"
    using find_map_cancelIf [OF dist m, of ?P] by (simp only: d' j c) simp
  have "m\<lparr>msg_status := Cancelled\<rparr> \<in> set (scheduled_messages ?d')"
    using f by (auto simp: find_Some_iff in_set_conv_nth)
  moreover have "processScheduledMessage sendOk ?d' j = (Skipped ''cancelled'', False, ?d')"
    unfolding processScheduledMessage_def by (simp only: f) simp
  ultimately show ?thesis by simp
qed


theorem cancelSessionMessages_then_skipped_witness:
  "distinct (map msg_id (scheduled_messages pendingLinkDb)) \<and>
   hd (scheduled_messages pendingLinkDb) \<in> set (scheduled_messages pendingLinkDb) \<and>
   msg_session_id (hd (scheduled_messages pendingLinkDb)) = ''session_1'' \<and>
   msg_status (hd (scheduled_messages pendingLinkDb)) = Pending \<and>
   job_scheduledMessageId linkJob = msg_id (hd (scheduled_messages pendingLinkDb)) \<and>
   fst (cancelSessionMessages (\<lambda>i. True) pendingLinkDb ''session_1'' ''%'') = 1 \<and>
   processScheduledMessage True
       (snd (cancelSessionMessages (\<lambda>i. True) pendingLinkDb ''session_1'' ''%'')) linkJob =
     (Skipped ''cancelled'', False,
      snd (cancelSessionMessages (\<lambda>i. True) pendingLinkDb ''session_1'' ''%''))"
proof -
  have dist: "distinct (map msg_id (scheduled_messages pendingLinkDb))" by code_simp
  have m: "hd (scheduled_messages pendingLinkDb) \<in> set (scheduled_messages pendingLinkDb)"
    by code_simp
  have own: "msg_session_id (hd (scheduled_messages pendingLinkDb)) = ''session_1''" by code_simp
  have pend: "msg_status (hd (scheduled_messages pendingLinkDb)) = Pending" by code_simp
  have j: "job_scheduledMessageId linkJob = msg_id (hd (scheduled_messages pendingLinkDb))"
    by code_simp
  have n: "fst (cancelSessionMessages (\<lambda>i. True) pendingLinkDb ''session_1'' ''%'') = 1"
    by code_simp
  from cancelSessionMessages_then_skipped [OF dist m own pend _ j, of "\<lambda>i. True" True]
  have "processScheduledMessage True
       (snd (cancelSessionMessages (\<lambda>i. True) pendingLinkDb ''session_1'' ''%'')) linkJob =
     (Skipped ''cancelled'', False,
      snd (cancelSessionMessages (\<lambda>i. True) pendingLinkDb ''session_1'' ''%''))"
    by simp
  with dist m own pend j n show ?thesis by blast
qed

lemma sessions_cancelScheduledMessage [simp]:
  "sessions (snd (cancelScheduledMessage q d i)) = sessions d"
  by (simp add: cancelScheduledMessage_def setMessageStatus_def split: option.splits)

lemma sessions_cancelRows [simp]: "sessions (snd (cancelRows q d is n)) = sessions d"
  by (induction "is" arbitrary: d n) (simp_all add: case_prod_beta)

lemma sessions_cancelSessionMessages [simp]:
  "sessions (snd (cancelSessionMessages q d sid pat)) = sessions d"
  by (simp add: cancelSessionMessages_def Let_def)

lemma sessions_cancelSessions [simp]: "sessions (cancelSessions q d sids) = sessions d"
  by (induction sids arbitrary: d) simp_all



lemma session_id_expireFor [simp]: "session_id (expireFor ph s) = session_id s"
  by (simp add: expireFor_def)












end
